theory Spec2Isabelle
  imports Main "HOL-Library.AList"
begin

section \<open>Token and session lifecycle: the embedding\<close>

text \<open>
  The development follows \<^verbatim>\<open>token.service.ts\<close> (class \<^verbatim>\<open>TokenService\<close>),
  \<^verbatim>\<open>session.service.ts\<close> (class \<^verbatim>\<open>SessionService\<close>) and \<^verbatim>\<open>config/redis.ts\<close>.
  Every function takes what the TypeScript reads from its environment as an explicit
  argument: the security configuration (\<^verbatim>\<open>getConfig().security\<close>), the Redis client and
  the data behind it, the wall clock (\<^verbatim>\<open>Date.now()\<close>, milliseconds since the epoch, one
  argument for each time the function reads it) and, for \<^verbatim>\<open>createSession\<close>, the
  identifier drawn by \<^verbatim>\<open>uuidv4()\<close>. A function that changes the store returns the store
  afterwards. A promise that rejects and a \<^verbatim>\<open>throw\<close> are both the left injection of a
  sum. Calls to the logger have no effect on any value below and are left out. Where a
  parameter of the TypeScript has the name of a field (\<^verbatim>\<open>userId\<close>, \<^verbatim>\<open>email\<close>, \<^verbatim>\<open>roles\<close>,
  \<^verbatim>\<open>ipAddress\<close>, \<^verbatim>\<open>userAgent\<close>, \<^verbatim>\<open>refreshToken\<close>), the parameter is called \<open>uid\<close>,
  \<open>mail\<close>, \<open>rs\<close>, \<open>ip\<close>, \<open>agent\<close>, \<open>refresh\<close> here.
\<close>

subsection \<open>Errors and numbers\<close>

datatype error =
    AuthenticationError string
  | Error string
  | TypeError
  | SyntaxError
  | JsonWebTokenError string
  | TokenExpiredError
  | RedisError

text \<open>A JavaScript number as far as the code computes with it: an integer, or \<^verbatim>\<open>NaN\<close>
  (what arithmetic on \<^verbatim>\<open>undefined\<close> yields).\<close>

datatype js_number = Num int | NaN

subsection \<open>Sessions\<close>

text \<open>The interface \<^verbatim>\<open>Session\<close>. A \<^verbatim>\<open>Date\<close> is its time value, milliseconds since the
  epoch; an optional field that is \<^verbatim>\<open>undefined\<close> is \<open>None\<close>.\<close>

record Session =
  id' :: string
  userId :: string
  createdAt :: int
  expiresAt :: int
  lastActivityAt :: int
  ipAddress :: "string option"
  userAgent :: "string option"

subsection \<open>Claims, tokens and the signing library\<close>

text \<open>The decoded body of a token. \<^verbatim>\<open>TokenPayload\<close> declares \<^verbatim>\<open>userId\<close>, \<^verbatim>\<open>email\<close>,
  \<^verbatim>\<open>roles\<close>, \<^verbatim>\<open>iat\<close>, \<^verbatim>\<open>exp\<close>; a refresh token carries \<^verbatim>\<open>userId\<close> and \<^verbatim>\<open>type\<close>.
  A field that a body does not have is \<open>None\<close>. Times are whole seconds.\<close>

record TokenPayload =
  userId :: "string option"
  email :: "string option"
  roles :: "string list option"
  type :: "string option"
  iat :: "int option"
  exp :: "int option"

text \<open>A token string, read symbolically: either a well-formed JSON Web Token, given by
  its body and the secret its signature was made with, or a string that is no token at
  all. A signature is valid for exactly the secret that made it.\<close>

datatype token = JWT TokenPayload string | Malformed string

text \<open>The fields of \<^verbatim>\<open>SecurityConfig\<close> that the token service reads.\<close>

record SecurityConfig =
  jwtAccessSecret :: string
  jwtRefreshSecret :: string
  jwtAccessExpiry :: string
  jwtRefreshExpiry :: string

record AuthTokens =
  accessToken :: token
  refreshToken :: token
  expiresIn :: js_number

definition is_digit :: "char \<Rightarrow> bool" where
  "is_digit c = (48 \<le> (of_char c :: nat) \<and> (of_char c :: nat) \<le> 57)"

definition digit_val :: "char \<Rightarrow> nat" where
  "digit_val c = (of_char c :: nat) - 48"

definition digits_val :: "string \<Rightarrow> nat" where
  "digits_val ds = foldl (\<lambda>a c. 10 * a + digit_val c) 0 ds"

definition unit_millis :: "string \<Rightarrow> int option" where
  "unit_millis u = map_of
     [('''', 1),
      (''milliseconds'', 1), (''millisecond'', 1), (''msecs'', 1), (''msec'', 1), (''ms'', 1),
      (''seconds'', 1000), (''second'', 1000), (''secs'', 1000), (''sec'', 1000), (''s'', 1000),
      (''minutes'', 60000), (''minute'', 60000), (''mins'', 60000), (''min'', 60000),
      (''m'', 60000),
      (''hours'', 3600000), (''hour'', 3600000), (''hrs'', 3600000), (''hr'', 3600000),
      (''h'', 3600000),
      (''days'', 86400000), (''day'', 86400000), (''d'', 86400000),
      (''weeks'', 604800000), (''week'', 604800000), (''w'', 604800000),
      (''years'', 31557600000), (''year'', 31557600000), (''yrs'', 31557600000),
      (''yr'', 31557600000), (''y'', 31557600000)] u"

text \<open>Modelled from the spec: the time-span reader of the signing library (package
  \<^verbatim>\<open>ms\<close>, not part of the repository's files), which turns the configured expiry
  (``default 15 minutes'', written \<^verbatim>\<open>15m\<close>; ``default 7 days'', written \<^verbatim>\<open>7d\<close>) into
  milliseconds. The model reads an unsigned decimal integer followed directly by a
  lower-case unit name, or by nothing for milliseconds; every other string is not a time
  span (\<open>None\<close>).\<close>

definition ms :: "string \<Rightarrow> int option" where
  "ms str =
     (let ds = takeWhile is_digit str; u = dropWhile is_digit str
      in if 100 < length str \<or> ds = [] then None
         else map_option (\<lambda>f. int (digits_val ds) * f) (unit_millis u))"

text \<open>Modelled from the spec: \<^verbatim>\<open>jwt.sign(payload, secret, {expiresIn})\<close> of the package
  \<^verbatim>\<open>jsonwebtoken\<close> (not part of the repository's files): ``encodes claims, signs with
  the secret, sets expiry to now + configured TTL''. The issue time is the clock in whole
  seconds unless the body brings a non-zero one, the expiry is the issue time plus the
  time span in whole seconds, and signing is refused for an empty secret, for a body that
  already has \<^verbatim>\<open>exp\<close> and for an expiry that is no time span.\<close>

definition jwt_sign :: "TokenPayload \<Rightarrow> string \<Rightarrow> string \<Rightarrow> int \<Rightarrow> error + token" where
  "jwt_sign payload secret expiry now =
     (if secret = [] then Inl (Error ''secretOrPrivateKey must have a value'')
      else if exp payload \<noteq> None then Inl (Error ''the payload already has an exp property'')
      else
        let timestamp = (case iat payload of
                           Some i \<Rightarrow> if i \<noteq> 0 then i else now div 1000
                         | None \<Rightarrow> now div 1000)
        in case ms expiry of
             None \<Rightarrow> Inl (Error ''expiresIn should be a number of seconds or a timespan'')
           | Some millis \<Rightarrow>
               Inr (JWT (payload\<lparr>iat := Some timestamp,
                                  exp := Some (timestamp + millis div 1000)\<rparr>) secret))"

text \<open>Modelled from the spec: \<^verbatim>\<open>jwt.verify(token, secret)\<close> of \<^verbatim>\<open>jsonwebtoken\<close>:
  ``decodes and checks signature + expiry'', failing ``on any decode failure, signature
  mismatch, or expiry violation''. A token is expired from the second \<^verbatim>\<open>exp\<close> on.\<close>

definition jwt_verify :: "token \<Rightarrow> string \<Rightarrow> int \<Rightarrow> error + TokenPayload" where
  "jwt_verify tok secret now =
     (case tok of
        Malformed s \<Rightarrow> Inl (JsonWebTokenError ''jwt malformed'')
      | JWT payload k \<Rightarrow>
          if secret = [] then Inl (JsonWebTokenError ''secret or public key must be provided'')
          else if k \<noteq> secret then Inl (JsonWebTokenError ''invalid signature'')
          else (case exp payload of
                  Some e \<Rightarrow> if e \<le> now div 1000 then Inl TokenExpiredError else Inr payload
                | None \<Rightarrow> Inr payload))"

text \<open>Modelled from the spec: \<^verbatim>\<open>jwt.decode(token)\<close> of \<^verbatim>\<open>jsonwebtoken\<close>: ``decodes the
  token locally (no signature check)''; \<^verbatim>\<open>null\<close> for a string that is no token.\<close>

definition jwt_decode :: "token \<Rightarrow> TokenPayload option" where
  "jwt_decode tok = (case tok of Malformed s \<Rightarrow> None | JWT payload k \<Rightarrow> Some payload)"

subsection \<open>The key-value store\<close>

text \<open>A key is a string, except that the denylist key \<^verbatim>\<open>token:revoked:${token}\<close> keeps the
  token it is built from, tokens being symbolic. A stored value is a string too: either
  the text \<^verbatim>\<open>JSON.stringify(session)\<close> of a session record, kept as the record it
  parses back to, or any other text.\<close>

datatype redis_key = Key string | TokenRevokedKey token

datatype redis_value = Text string | SessionJSON Session

record redis_entry =
  val :: redis_value
  ttl :: "int option"

text \<open>\<^verbatim>\<open>config/redis.ts\<close> holds one client, \<^verbatim>\<open>null\<close> until \<^verbatim>\<open>initializeRedis\<close> has run.
  \<open>online\<close> says whether the commands sent through the client reach the server; when
  they do not, a command's promise rejects. \<open>kv\<close> is the server's data, each entry with
  the time to live (in seconds) it was written with; the first entry for a key counts.\<close>

record redis =
  initialized :: bool
  online :: bool
  kv :: "(redis_key \<times> redis_entry) list"

definition getRedisClient :: "redis \<Rightarrow> error + redis" where
  "getRedisClient r =
     (if initialized r then Inr r
      else Inl (Error ''Redis client not initialized. Call initializeRedis first.''))"

text \<open>Modelled from the spec: the commands of the store client (package \<^verbatim>\<open>redis\<close>, not part
  of the repository's files), ``get(key) -> value|absent, setWithExpiry(key, value,
  ttlSeconds), delete(key), scanKeysByPrefix(prefix) -> sequence of key''. The server
  refuses a time to live that is not positive.\<close>

definition redis_get :: "redis \<Rightarrow> redis_key \<Rightarrow> error + redis_value option" where
  "redis_get r k = (if online r then Inr (map_option val (map_of (kv r) k)) else Inl RedisError)"

definition redis_setEx :: "redis \<Rightarrow> redis_key \<Rightarrow> int \<Rightarrow> redis_value \<Rightarrow> error + redis" where
  "redis_setEx r k seconds v =
     (if \<not> online r \<or> seconds \<le> 0 then Inl RedisError
      else Inr (r\<lparr>kv := AList.update k \<lparr>val = v, ttl = Some seconds\<rparr> (kv r)\<rparr>))"

definition redis_del :: "redis \<Rightarrow> redis_key \<Rightarrow> error + redis" where
  "redis_del r k = (if online r then Inr (r\<lparr>kv := AList.delete k (kv r)\<rparr>) else Inl RedisError)"

text \<open>Modelled from the spec: \<^verbatim>\<open>redis.keys(prefix + '*')\<close> of the same client, ``pattern-based
  enumeration over the store's keyspace'': the keys that start with the prefix, each once.
  The server promises no order; the model lists them as \<open>kv\<close> does.\<close>

definition matches_prefix :: "string \<Rightarrow> redis_key \<Rightarrow> bool" where
  "matches_prefix p k = (case k of Key s \<Rightarrow> take (length p) s = p | TokenRevokedKey t \<Rightarrow> False)"

definition redis_keys :: "redis \<Rightarrow> string \<Rightarrow> error + redis_key list" where
  "redis_keys r p =
     (if online r then Inr (filter (matches_prefix p) (remdups (map fst (kv r))))
      else Inl RedisError)"

text \<open>Modelled from the spec: the server's own expiry (``TTL expiry honored server-side'').
  After \<open>d\<close> seconds an entry written with a time to live of at most \<open>d\<close> is gone, and the
  others have that much less left. Entries that an earlier one for the same key hides are
  dropped first.\<close>

definition alive :: "int \<Rightarrow> redis_entry \<Rightarrow> bool" where
  "alive d e = (case ttl e of None \<Rightarrow> True | Some t \<Rightarrow> d < t)"

definition aged :: "int \<Rightarrow> redis_entry \<Rightarrow> redis_entry" where
  "aged d e = e\<lparr>ttl := map_option (\<lambda>t. t - d) (ttl e)\<rparr>"

definition redis_elapse :: "int \<Rightarrow> redis \<Rightarrow> redis" where
  "redis_elapse d r =
     r\<lparr>kv := map (\<lambda>(k, e). (k, aged d e))
                (filter (\<lambda>(k, e). alive d e) (AList.clearjunk (kv r)))\<rparr>"

text \<open>What \<^verbatim>\<open>if (data)\<close> tests on a string: it is not empty. The text of a session record
  never is. \<^verbatim>\<open>JSON.parse\<close> gives back the record that \<^verbatim>\<open>JSON.stringify\<close> wrote; on any
  other text it is taken to throw (the services never write other text under a session
  key, and the properties below are about stores where none is found there).\<close>

definition truthy :: "redis_value \<Rightarrow> bool" where
  "truthy v = (case v of Text s \<Rightarrow> s \<noteq> [] | SessionJSON s \<Rightarrow> True)"

definition JSON_stringify :: "Session \<Rightarrow> redis_value" where
  "JSON_stringify s = SessionJSON s"

definition JSON_parse :: "redis_value \<Rightarrow> error + Session" where
  "JSON_parse v = (case v of SessionJSON s \<Rightarrow> Inr s | Text t \<Rightarrow> Inl SyntaxError)"

subsection \<open>TokenService\<close>

definition generateAccessToken ::
  "SecurityConfig \<Rightarrow> int \<Rightarrow> string \<Rightarrow> string \<Rightarrow> string list \<Rightarrow> error + token" where
  "generateAccessToken cfg now uid mail rs =
     jwt_sign \<lparr>userId = Some uid, email = Some mail, roles = Some rs,
               type = None, iat = None, exp = None\<rparr>
       (jwtAccessSecret cfg) (jwtAccessExpiry cfg) now"

definition generateRefreshToken :: "SecurityConfig \<Rightarrow> int \<Rightarrow> string \<Rightarrow> error + token" where
  "generateRefreshToken cfg now uid =
     jwt_sign \<lparr>userId = Some uid, email = None, roles = None,
               type = Some ''refresh'', iat = None, exp = None\<rparr>
       (jwtRefreshSecret cfg) (jwtRefreshExpiry cfg) now"

text \<open>\<^verbatim>\<open>decoded.exp ? (decoded.exp - decoded.iat) * 1000 : 0\<close>, the expression both
  \<^verbatim>\<open>generateTokenPair\<close> and \<^verbatim>\<open>refreshAccessToken\<close> compute the reported expiry with. An
  absent \<^verbatim>\<open>exp\<close> and the number 0 are both falsy.\<close>

definition expiry_millis :: "TokenPayload \<Rightarrow> js_number" where
  "expiry_millis decoded =
     (case exp decoded of
        None \<Rightarrow> Num 0
      | Some e \<Rightarrow>
          if e = 0 then Num 0
          else (case iat decoded of None \<Rightarrow> NaN | Some i \<Rightarrow> Num ((e - i) * 1000)))"

text \<open>\<^verbatim>\<open>generateTokenPair\<close> signs twice, so the clock is read twice: \<open>now\<close> for the access
  token, \<open>now'\<close> for the refresh token.\<close>

definition generateTokenPair ::
  "SecurityConfig \<Rightarrow> int \<Rightarrow> int \<Rightarrow> string \<Rightarrow> string \<Rightarrow> string list
     \<Rightarrow> error + AuthTokens" where
  "generateTokenPair cfg now now' uid mail rs =
     (case generateAccessToken cfg now uid mail rs of
        Inl e \<Rightarrow> Inl e
      | Inr access \<Rightarrow>
          (case generateRefreshToken cfg now' uid of
             Inl e \<Rightarrow> Inl e
           | Inr refresh \<Rightarrow>
               (case jwt_decode access of
                  None \<Rightarrow> Inl TypeError
                | Some decoded \<Rightarrow>
                    Inr \<lparr>accessToken = access, refreshToken = refresh,
                         expiresIn = expiry_millis decoded\<rparr>)))"

text \<open>\<^verbatim>\<open>secret || config.security.jwtAccessSecret\<close>: an absent and an empty secret both
  fall back to the access secret.\<close>

definition verifyToken ::
  "SecurityConfig \<Rightarrow> int \<Rightarrow> token \<Rightarrow> string option \<Rightarrow> error + TokenPayload" where
  "verifyToken cfg now tok secret =
     (case jwt_verify tok
             (case secret of
                None \<Rightarrow> jwtAccessSecret cfg
              | Some s \<Rightarrow> if s \<noteq> [] then s else jwtAccessSecret cfg) now of
        Inl e \<Rightarrow> Inl (AuthenticationError ''Invalid or expired token'')
      | Inr decoded \<Rightarrow> Inr decoded)"

definition isTokenRevoked :: "redis \<Rightarrow> token \<Rightarrow> bool" where
  "isTokenRevoked r tok =
     (case getRedisClient r of
        Inl e \<Rightarrow> False
      | Inr client \<Rightarrow>
          (case redis_get client (TokenRevokedKey tok) of
             Inl e \<Rightarrow> False
           | Inr result \<Rightarrow> result = Some (Text ''1'')))"

text \<open>The body of the \<^verbatim>\<open>try\<close> block of \<^verbatim>\<open>refreshAccessToken\<close>. The clock is read when the
  refresh token is verified (\<open>now\<close>) and again when the access token is signed
  (\<open>now'\<close>).\<close>

definition refreshAccessToken_try ::
  "SecurityConfig \<Rightarrow> redis \<Rightarrow> int \<Rightarrow> int \<Rightarrow> token \<Rightarrow> error + token \<times> js_number" where
  "refreshAccessToken_try cfg r now now' refresh =
     (case jwt_verify refresh (jwtRefreshSecret cfg) now of
        Inl e \<Rightarrow> Inl e
      | Inr decoded \<Rightarrow>
          if type decoded \<noteq> Some ''refresh'' then Inl (AuthenticationError ''Invalid token type'')
          else if isTokenRevoked r refresh then Inl (AuthenticationError ''Token has been revoked'')
          else
            (case jwt_sign \<lparr>userId = TokenPayload.userId decoded, email = None, roles = None,
                             type = None, iat = None, exp = None\<rparr>
                    (jwtAccessSecret cfg) (jwtAccessExpiry cfg) now' of
               Inl e \<Rightarrow> Inl e
             | Inr access \<Rightarrow>
                 (case jwt_decode access of
                    None \<Rightarrow> Inl TypeError
                  | Some decodedAccess \<Rightarrow> Inr (access, expiry_millis decodedAccess))))"

text \<open>The \<^verbatim>\<open>catch\<close> clause replaces whatever the block threw.\<close>

definition refreshAccessToken ::
  "SecurityConfig \<Rightarrow> redis \<Rightarrow> int \<Rightarrow> int \<Rightarrow> token \<Rightarrow> error + token \<times> js_number" where
  "refreshAccessToken cfg r now now' refresh =
     (case refreshAccessToken_try cfg r now now' refresh of
        Inl e \<Rightarrow> Inl (AuthenticationError ''Failed to refresh token'')
      | Inr result \<Rightarrow> Inr result)"

text \<open>\<^verbatim>\<open>revokeToken\<close> returns nothing and never throws: the result is the store afterwards.
  \<^verbatim>\<open>!decoded.exp\<close> holds for an absent \<^verbatim>\<open>exp\<close> and for 0.\<close>

definition revokeToken :: "redis \<Rightarrow> int \<Rightarrow> token \<Rightarrow> redis" where
  "revokeToken r now tok =
     (case jwt_decode tok of
        None \<Rightarrow> r
      | Some decoded \<Rightarrow>
          (case exp decoded of
             None \<Rightarrow> r
           | Some e \<Rightarrow>
               if e = 0 then r
               else
                 (case getRedisClient r of
                    Inl err \<Rightarrow> r
                  | Inr client \<Rightarrow>
                      let seconds = e - now div 1000
                      in if 0 < seconds
                         then (case redis_setEx client (TokenRevokedKey tok) seconds (Text ''1'') of
                                 Inl err \<Rightarrow> r
                               | Inr r' \<Rightarrow> r')
                         else r)))"

subsection \<open>SessionService\<close>

definition SESSION_PREFIX :: string where
  "SESSION_PREFIX = ''session:''"

definition SESSION_TTL :: int where
  "SESSION_TTL = 7 * 24 * 60 * 60"

definition session_key :: "string \<Rightarrow> redis_key" where
  "session_key sessionId = Key (SESSION_PREFIX @ sessionId)"

definition createSession ::
  "redis \<Rightarrow> int \<Rightarrow> string \<Rightarrow> string \<Rightarrow> string option \<Rightarrow> string option
     \<Rightarrow> error + redis \<times> Session" where
  "createSession r now sessionId uid ip agent =
     (case getRedisClient r of
        Inl e \<Rightarrow> Inl e
      | Inr client \<Rightarrow>
          let session = \<lparr>id' = sessionId, userId = uid, createdAt = now,
                         expiresAt = now + SESSION_TTL * 1000, lastActivityAt = now,
                         ipAddress = ip, userAgent = agent\<rparr>
          in (case redis_setEx client (session_key sessionId) SESSION_TTL
                     (JSON_stringify session) of
                Inl e \<Rightarrow> Inl e
              | Inr r' \<Rightarrow> Inr (r', session)))"

definition getSession :: "redis \<Rightarrow> string \<Rightarrow> error + Session option" where
  "getSession r sessionId =
     (case getRedisClient r of
        Inl e \<Rightarrow> Inl e
      | Inr client \<Rightarrow>
          (case redis_get client (session_key sessionId) of
             Inl e \<Rightarrow> Inl e
           | Inr None \<Rightarrow> Inr None
           | Inr (Some data) \<Rightarrow>
               if \<not> truthy data then Inr None
               else (case JSON_parse data of Inl e \<Rightarrow> Inl e | Inr s \<Rightarrow> Inr (Some s))))"

definition updateActivity :: "redis \<Rightarrow> int \<Rightarrow> string \<Rightarrow> error + redis" where
  "updateActivity r now sessionId =
     (case getRedisClient r of
        Inl e \<Rightarrow> Inl e
      | Inr client \<Rightarrow>
          (case getSession r sessionId of
             Inl e \<Rightarrow> Inl e
           | Inr None \<Rightarrow> Inr r
           | Inr (Some session) \<Rightarrow>
               redis_setEx client (session_key sessionId) SESSION_TTL
                 (JSON_stringify (session\<lparr>lastActivityAt := now\<rparr>))))"

definition revokeSession :: "redis \<Rightarrow> string \<Rightarrow> error + redis" where
  "revokeSession r sessionId =
     (case getRedisClient r of
        Inl e \<Rightarrow> Inl e
      | Inr client \<Rightarrow> redis_del client (session_key sessionId))"

text \<open>The \<^verbatim>\<open>for (const key of keys)\<close> loop of \<^verbatim>\<open>revokeAllUserSessions\<close>.\<close>

fun revoke_loop :: "string \<Rightarrow> redis \<Rightarrow> redis_key list \<Rightarrow> error + redis" where
  "revoke_loop uid r [] = Inr r"
| "revoke_loop uid r (key # keys) =
     (case redis_get r key of
        Inl e \<Rightarrow> Inl e
      | Inr None \<Rightarrow> revoke_loop uid r keys
      | Inr (Some data) \<Rightarrow>
          if \<not> truthy data then revoke_loop uid r keys
          else (case JSON_parse data of
                  Inl e \<Rightarrow> Inl e
                | Inr session \<Rightarrow>
                    if Session.userId session = uid
                    then (case redis_del r key of
                            Inl e \<Rightarrow> Inl e
                          | Inr r' \<Rightarrow> revoke_loop uid r' keys)
                    else revoke_loop uid r keys))"

definition revokeAllUserSessions :: "redis \<Rightarrow> string \<Rightarrow> error + redis" where
  "revokeAllUserSessions r uid =
     (case getRedisClient r of
        Inl e \<Rightarrow> Inl e
      | Inr client \<Rightarrow>
          (case redis_keys client (SESSION_PREFIX) of
             Inl e \<Rightarrow> Inl e
           | Inr keys \<Rightarrow> revoke_loop uid client keys))"

text \<open>The loop of \<^verbatim>\<open>getUserSessions\<close>; \<^verbatim>\<open>sessions.push\<close> appends.\<close>

fun sessions_loop ::
  "string \<Rightarrow> redis \<Rightarrow> redis_key list \<Rightarrow> Session list \<Rightarrow> error + Session list" where
  "sessions_loop uid r [] sessions = Inr sessions"
| "sessions_loop uid r (key # keys) sessions =
     (case redis_get r key of
        Inl e \<Rightarrow> Inl e
      | Inr None \<Rightarrow> sessions_loop uid r keys sessions
      | Inr (Some data) \<Rightarrow>
          if \<not> truthy data then sessions_loop uid r keys sessions
          else (case JSON_parse data of
                  Inl e \<Rightarrow> Inl e
                | Inr session \<Rightarrow>
                    if Session.userId session = uid
                    then sessions_loop uid r keys (sessions @ [session])
                    else sessions_loop uid r keys sessions))"

definition getUserSessions :: "redis \<Rightarrow> string \<Rightarrow> error + Session list" where
  "getUserSessions r uid =
     (case getRedisClient r of
        Inl e \<Rightarrow> Inl e
      | Inr client \<Rightarrow>
          (case redis_keys client (SESSION_PREFIX) of
             Inl e \<Rightarrow> Inl e
           | Inr keys \<Rightarrow> sessions_loop uid client keys []))"

subsection \<open>Vocabulary of the properties\<close>

text \<open>The key \<open>k\<close> holds a session record of the user \<open>uid\<close>.\<close>

definition holds_session_of :: "string \<Rightarrow> redis \<Rightarrow> redis_key \<Rightarrow> bool" where
  "holds_session_of uid r k =
     (case map_of (kv r) k of
        None \<Rightarrow> False
      | Some e \<Rightarrow> (case val e of SessionJSON s \<Rightarrow> Session.userId s = uid | Text t \<Rightarrow> False))"

text \<open>Every value under a \<^verbatim>\<open>session:\<close> key is a session record (or the empty string,
  which the services skip): what \<^verbatim>\<open>createSession\<close> and \<^verbatim>\<open>updateActivity\<close> write there.\<close>

definition session_value :: "redis_value \<Rightarrow> bool" where
  "session_value v = (case v of SessionJSON s \<Rightarrow> True | Text t \<Rightarrow> t = [])"

definition session_entries_ok :: "redis \<Rightarrow> bool" where
  "session_entries_ok r =
     list_all (\<lambda>(k, e). \<not> matches_prefix SESSION_PREFIX k \<or> session_value (val e)) (kv r)"

text \<open>The session records of \<open>uid\<close> found under the given keys, in their order.\<close>

definition sessions_at :: "string \<Rightarrow> redis \<Rightarrow> redis_key list \<Rightarrow> Session list" where
  "sessions_at uid r keys =
     List.map_filter
       (\<lambda>k. case map_of (kv r) k of
               None \<Rightarrow> None
             | Some e \<Rightarrow> (case val e of
                            SessionJSON s \<Rightarrow> if Session.userId s = uid then Some s else None
                          | Text t \<Rightarrow> None)) keys"

text \<open>The store with every session entry of \<open>uid\<close> taken out.\<close>

definition without_sessions_of :: "string \<Rightarrow> redis \<Rightarrow> redis" where
  "without_sessions_of uid r =
     r\<lparr>kv := filter (\<lambda>(k, e). \<not> (matches_prefix SESSION_PREFIX k \<and> holds_session_of uid r k))
                (kv r)\<rparr>"

subsection \<open>Concrete configurations, tokens and stores\<close>

text \<open>The default expiries of \<^verbatim>\<open>env.schema.ts\<close> (\<^verbatim>\<open>15m\<close>, \<^verbatim>\<open>7d\<close>) and two secrets of the
  required 32 characters or more.\<close>

definition example_config :: SecurityConfig where
  "example_config =
     \<lparr>jwtAccessSecret = ''access-secret-0123456789-0123456789'',
      jwtRefreshSecret = ''refresh-secret-0123456789-012345678'',
      jwtAccessExpiry = ''15m'', jwtRefreshExpiry = ''7d''\<rparr>"

definition empty_store :: redis where
  "empty_store = \<lparr>initialized = True, online = True, kv = []\<rparr>"

definition offline_store :: redis where
  "offline_store = \<lparr>initialized = True, online = False, kv = []\<rparr>"

text \<open>The tokens \<^verbatim>\<open>generateTokenPair('u1', 'u1@x.com', ['user'])\<close> issues under
  \<open>example_config\<close> when the clock reads 1700000000123.\<close>

definition example_access_payload :: TokenPayload where
  "example_access_payload =
     \<lparr>userId = Some ''u1'', email = Some ''u1@x.com'', roles = Some [''user''], type = None,
      iat = Some 1700000000, exp = Some 1700000900\<rparr>"

definition example_access_token :: token where
  "example_access_token = JWT example_access_payload ''access-secret-0123456789-0123456789''"

definition example_refresh_payload :: TokenPayload where
  "example_refresh_payload =
     \<lparr>userId = Some ''u1'', email = None, roles = None, type = Some ''refresh'',
      iat = Some 1700000000, exp = Some 1700604800\<rparr>"

definition example_refresh_token :: token where
  "example_refresh_token = JWT example_refresh_payload ''refresh-secret-0123456789-012345678''"

text \<open>A token with the body of an access token under the refresh secret's signature.\<close>

definition example_untyped_token :: token where
  "example_untyped_token = JWT example_access_payload ''refresh-secret-0123456789-012345678''"

text \<open>The store after \<^verbatim>\<open>revokeToken\<close> of the refresh token at the same clock reading.\<close>

definition revoked_store :: redis where
  "revoked_store =
     \<lparr>initialized = True, online = True,
      kv = [(TokenRevokedKey example_refresh_token, \<lparr>val = Text ''1'', ttl = Some 604800\<rparr>)]\<rparr>"

text \<open>Three sessions of user \<^verbatim>\<open>A\<close> and one of user \<^verbatim>\<open>B\<close>, as \<^verbatim>\<open>createSession\<close> writes them
  when the clock reads 1000.\<close>

definition example_session :: "string \<Rightarrow> string \<Rightarrow> Session" where
  "example_session sessionId uid =
     \<lparr>id' = sessionId, userId = uid, createdAt = 1000, expiresAt = 604801000,
      lastActivityAt = 1000, ipAddress = None, userAgent = None\<rparr>"

definition example_entry :: "string \<Rightarrow> string \<Rightarrow> redis_key \<times> redis_entry" where
  "example_entry sessionId uid =
     (Key (''session:'' @ sessionId),
      \<lparr>val = SessionJSON (example_session sessionId uid), ttl = Some 604800\<rparr>)"

definition store_AB :: redis where
  "store_AB =
     \<lparr>initialized = True, online = True,
      kv = [example_entry ''a1'' ''A'', example_entry ''a2'' ''A'', example_entry ''b1'' ''B'',
            example_entry ''a3'' ''A'']\<rparr>"

section \<open>Facts about the library model and the store\<close>

lemma ms_15m: "ms ''15m'' = Some 900000"
  by code_simp

lemma ms_7d: "ms ''7d'' = Some 604800000"
  by code_simp

lemma ms_nonneg: "ms str = Some millis \<Longrightarrow> 0 \<le> millis"
  by (auto simp: ms_def Let_def unit_millis_def split: if_splits)

lemma seconds_advance:
  "(now::int) + millis \<le> now' \<Longrightarrow> now div 1000 + millis div 1000 \<le> now' div 1000"
  by arith

lemma map_of_map_filter_distinct:
  "distinct (map fst al) \<Longrightarrow>
   map_of (map (\<lambda>(k, e). (k, f e)) (filter (\<lambda>(k, e). P e) al)) k =
     (case map_of al k of None \<Rightarrow> None | Some e \<Rightarrow> if P e then Some (f e) else None)"
proof (induction al)
  case Nil
  then show ?case by simp
next
  case (Cons a al)
  obtain k' e' where a: "a = (k', e')" by (cases a)
  have "k' \<notin> fst ` set al" using Cons.prems a by simp
  then have none: "map_of al k' = None" by (simp add: map_of_eq_None_iff)
  from Cons show ?case using a none by (auto split: option.splits)
qed

lemma map_of_elapse:
  "map_of (kv (redis_elapse d r)) k =
     (case map_of (kv r) k of
        None \<Rightarrow> None
      | Some e \<Rightarrow> if alive d e then Some (aged d e) else None)"
  by (simp add: redis_elapse_def map_of_map_filter_distinct AList.map_of_clearjunk)

lemma elapse_flags:
  "initialized (redis_elapse d r) = initialized r"
  "online (redis_elapse d r) = online r"
  by (simp_all add: redis_elapse_def)

section \<open>TokenService: the revocation registry\<close>

text \<open>
  C1. When the client is initialised and the server reachable, a token that decodes to a
  body with \<^verbatim>\<open>exp\<close> strictly after the clock (\<open>now < e * 1000\<close>, the clock not before the
  epoch) is entered by \<^verbatim>\<open>revokeToken\<close> in the denylist under its own key, with the value
  \<^verbatim>\<open>'1'\<close> and a time to live of exactly \<open>e - now div 1000\<close> seconds, the token's remaining
  lifetime on the clock in seconds. While fewer seconds than that have elapsed the entry
  exists and \<^verbatim>\<open>isTokenRevoked\<close> answers true; once that many have elapsed the entry is
  gone. A token that does not decode, has no \<^verbatim>\<open>exp\<close>, or whose \<^verbatim>\<open>exp\<close> is not after the
  clock leaves the store as it was. In any initialised, reachable store that holds the
  entry under the token's key, whatever is left of its time to live, \<^verbatim>\<open>isTokenRevoked\<close>
  answers true.
\<close>

theorem revokeToken_denylist:
  "(initialized r \<and> online r \<and> 0 \<le> now \<and> jwt_decode tok = Some decoded \<and>
    exp decoded = Some e \<and> now < e * 1000 \<longrightarrow>
      map_of (kv (revokeToken r now tok)) (TokenRevokedKey tok) =
        Some \<lparr>val = Text ''1'', ttl = Some (e - now div 1000)\<rparr> \<and>
      (\<forall>d. 0 \<le> d \<and> d < e - now div 1000 \<longrightarrow>
         isTokenRevoked (redis_elapse d (revokeToken r now tok)) tok) \<and>
      (\<forall>d. e - now div 1000 \<le> d \<longrightarrow>
         map_of (kv (redis_elapse d (revokeToken r now tok))) (TokenRevokedKey tok) = None \<and>
         \<not> isTokenRevoked (redis_elapse d (revokeToken r now tok)) tok)) \<and>
   ((jwt_decode tok = None \<or> (\<exists>p. jwt_decode tok = Some p \<and> exp p = None) \<or>
     (\<exists>p x. jwt_decode tok = Some p \<and> exp p = Some x \<and> x * 1000 \<le> now)) \<longrightarrow>
      revokeToken r now tok = r) \<and>
   (\<forall>r' t. initialized r' \<and> online r' \<and>
      map_of (kv r') (TokenRevokedKey tok) = Some \<lparr>val = Text ''1'', ttl = t\<rparr> \<longrightarrow>
      isTokenRevoked r' tok)"
proof (intro conjI impI allI)
  assume h: "initialized r \<and> online r \<and> 0 \<le> now \<and> jwt_decode tok = Some decoded \<and>
    exp decoded = Some e \<and> now < e * 1000"
  then have pos: "0 < e - now div 1000" and ne: "e \<noteq> 0" by arith+
  have rev: "revokeToken r now tok =
      r\<lparr>kv := AList.update (TokenRevokedKey tok)
                 \<lparr>val = Text ''1'', ttl = Some (e - now div 1000)\<rparr> (kv r)\<rparr>"
    using h pos ne by (simp add: revokeToken_def getRedisClient_def redis_setEx_def Let_def)
  show w: "map_of (kv (revokeToken r now tok)) (TokenRevokedKey tok) =
        Some \<lparr>val = Text ''1'', ttl = Some (e - now div 1000)\<rparr>"
    by (simp add: rev AList.update_conv')
  have fl: "initialized (revokeToken r now tok)" "online (revokeToken r now tok)"
    using h by (simp_all add: rev)
  show "isTokenRevoked (redis_elapse d (revokeToken r now tok)) tok"
    if "0 \<le> d \<and> d < e - now div 1000" for d
    using fl that by (simp add: isTokenRevoked_def getRedisClient_def redis_get_def elapse_flags
        map_of_elapse w alive_def aged_def)
  show "map_of (kv (redis_elapse d (revokeToken r now tok))) (TokenRevokedKey tok) = None"
    if "e - now div 1000 \<le> d" for d
    using that by (simp add: map_of_elapse w alive_def)
  show "\<not> isTokenRevoked (redis_elapse d (revokeToken r now tok)) tok"
    if "e - now div 1000 \<le> d" for d
    using fl that by (simp add: isTokenRevoked_def getRedisClient_def redis_get_def elapse_flags
        map_of_elapse w alive_def)
next
  assume "jwt_decode tok = None \<or> (\<exists>p. jwt_decode tok = Some p \<and> exp p = None) \<or>
     (\<exists>p x. jwt_decode tok = Some p \<and> exp p = Some x \<and> x * 1000 \<le> now)"
  moreover have "x - now div 1000 \<le> 0" if "x * 1000 \<le> now" for x :: int
    using that by arith
  ultimately show "revokeToken r now tok = r"
    by (auto simp: revokeToken_def Let_def split: sum.splits)
next
  fix r' :: redis and t
  assume "initialized r' \<and> online r' \<and>
      map_of (kv r') (TokenRevokedKey tok) = Some \<lparr>val = Text ''1'', ttl = t\<rparr>"
  then show "isTokenRevoked r' tok"
    by (simp add: isTokenRevoked_def getRedisClient_def redis_get_def)
qed

text \<open>The refresh token of the example, revoked 123 ms after it was issued: the entry
  carries the full 604800 seconds, is still there after 604799 of them and gone after
  604800. Revoked at the second of its expiry, nothing is written. On the store that
  holds the entry the answer is true.\<close>

theorem revokeToken_denylist_witness:
  "map_of (kv (revokeToken empty_store 1700000000123 example_refresh_token))
      (TokenRevokedKey example_refresh_token) = Some \<lparr>val = Text ''1'', ttl = Some 604800\<rparr> \<and>
   isTokenRevoked (redis_elapse 604799 (revokeToken empty_store 1700000000123 example_refresh_token))
      example_refresh_token \<and>
   map_of (kv (redis_elapse 604800 (revokeToken empty_store 1700000000123 example_refresh_token)))
      (TokenRevokedKey example_refresh_token) = None \<and>
   revokeToken empty_store 1700604800000 example_refresh_token = empty_store \<and>
   isTokenRevoked revoked_store example_refresh_token"
proof -
  have dec: "jwt_decode example_refresh_token = Some example_refresh_payload"
    by (simp add: jwt_decode_def example_refresh_token_def)
  have ex: "exp example_refresh_payload = Some 1700604800"
    by (simp add: example_refresh_payload_def)
  have h: "initialized empty_store \<and> online empty_store \<and> (0::int) \<le> 1700000000123 \<and>
      jwt_decode example_refresh_token = Some example_refresh_payload \<and>
      exp example_refresh_payload = Some 1700604800 \<and> (1700000000123::int) < 1700604800 * 1000"
    by (simp add: dec ex empty_store_def)
  note first = revokeToken_denylist[of empty_store 1700000000123 example_refresh_token
      example_refresh_payload 1700604800, THEN conjunct1, rule_format, OF h]
  have h2: "jwt_decode example_refresh_token = None \<or>
      (\<exists>p. jwt_decode example_refresh_token = Some p \<and> exp p = None) \<or>
      (\<exists>p x. jwt_decode example_refresh_token = Some p \<and> exp p = Some x \<and>
         x * 1000 \<le> 1700604800000)"
    by (simp add: dec ex)
  note second = revokeToken_denylist[of empty_store 1700604800000 example_refresh_token,
      THEN conjunct2, THEN conjunct1, rule_format, OF h2]
  have h3: "initialized revoked_store \<and> online revoked_store \<and>
      map_of (kv revoked_store) (TokenRevokedKey example_refresh_token)
        = Some \<lparr>val = Text ''1'', ttl = Some 604800\<rparr>"
    by (simp add: revoked_store_def)
  note third = revokeToken_denylist[of _ _ example_refresh_token,
      THEN conjunct2, THEN conjunct2, rule_format, OF h3]
  from first have a: "map_of (kv (revokeToken empty_store 1700000000123 example_refresh_token))
      (TokenRevokedKey example_refresh_token) = Some \<lparr>val = Text ''1'', ttl = Some 604800\<rparr>"
    by simp
  from first have b: "isTokenRevoked
      (redis_elapse 604799 (revokeToken empty_store 1700000000123 example_refresh_token))
      example_refresh_token"
    by simp
  from first have c: "map_of
      (kv (redis_elapse 604800 (revokeToken empty_store 1700000000123 example_refresh_token)))
      (TokenRevokedKey example_refresh_token) = None"
    by simp
  from a b c second third show ?thesis by simp
qed

text \<open>
  C2. \<^verbatim>\<open>isTokenRevoked\<close> answers false whenever obtaining the client or reading the
  denylist key fails, and answers true exactly when the client is there and the read
  returns the string \<^verbatim>\<open>'1'\<close>.
\<close>

theorem isTokenRevoked_fails_open:
  "(getRedisClient r = Inl e \<or> redis_get r (TokenRevokedKey tok) = Inl e
      \<longrightarrow> isTokenRevoked r tok = False) \<and>
   (isTokenRevoked r tok = True \<longleftrightarrow>
      getRedisClient r = Inr r \<and> redis_get r (TokenRevokedKey tok) = Inr (Some (Text ''1'')))"
  by (auto simp: isTokenRevoked_def getRedisClient_def redis_get_def split: sum.splits if_splits)

text \<open>With the server unreachable the read fails and the answer is false; on the store
  that holds the entry it is true.\<close>

theorem isTokenRevoked_fails_open_witness:
  "redis_get offline_store (TokenRevokedKey example_refresh_token) = Inl RedisError \<and>
   isTokenRevoked offline_store example_refresh_token = False \<and>
   redis_get revoked_store (TokenRevokedKey example_refresh_token) = Inr (Some (Text ''1'')) \<and>
   isTokenRevoked revoked_store example_refresh_token = True"
proof -
  have off: "redis_get offline_store (TokenRevokedKey example_refresh_token) = Inl RedisError"
    by (simp add: redis_get_def offline_store_def)
  have hit: "getRedisClient revoked_store = Inr revoked_store \<and>
      redis_get revoked_store (TokenRevokedKey example_refresh_token) = Inr (Some (Text ''1''))"
    by (simp add: getRedisClient_def redis_get_def revoked_store_def)
  from off isTokenRevoked_fails_open[of offline_store RedisError example_refresh_token]
  have a: "isTokenRevoked offline_store example_refresh_token = False" by simp
  from hit isTokenRevoked_fails_open[of revoked_store _ example_refresh_token]
  have b: "isTokenRevoked revoked_store example_refresh_token = True" by simp
  from off hit a b show ?thesis by simp
qed

section \<open>TokenService: issuing, verifying and refreshing\<close>

lemma example_access_token_issued:
  "generateAccessToken example_config 1700000000123 ''u1'' ''u1@x.com'' [''user'']
     = Inr example_access_token"
  by (simp add: generateAccessToken_def example_config_def jwt_sign_def ms_15m
      example_access_token_def example_access_payload_def)

lemma example_refresh_token_issued:
  "generateRefreshToken example_config 1700000000123 ''u1'' = Inr example_refresh_token"
  by (simp add: generateRefreshToken_def example_config_def jwt_sign_def ms_7d
      example_refresh_token_def example_refresh_payload_def)

lemma example_refresh_token_verifies:
  "jwt_verify example_refresh_token (jwtRefreshSecret example_config) 1700000000123
     = Inr example_refresh_payload"
  by (simp add: jwt_verify_def example_refresh_token_def example_refresh_payload_def
      example_config_def)

lemma revoked_store_revokeToken:
  "revokeToken empty_store 1700000000123 example_refresh_token = revoked_store"
  by (simp add: revokeToken_def jwt_decode_def example_refresh_token_def
      example_refresh_payload_def getRedisClient_def redis_setEx_def empty_store_def
      revoked_store_def Let_def)

text \<open>
  C3. What the code does with a refresh token that verifies, has the type \<^verbatim>\<open>refresh\<close> and
  is on the denylist: the example's refresh token, revoked and then presented at the same
  clock reading. The error thrown inside the \<^verbatim>\<open>try\<close> block carries \<^verbatim>\<open>Token has been
  revoked\<close>; the one that reaches the caller carries \<^verbatim>\<open>Failed to refresh token\<close>.
\<close>

theorem refreshAccessToken_revoked_message:
  "isTokenRevoked (revokeToken empty_store 1700000000123 example_refresh_token)
      example_refresh_token \<and>
   refreshAccessToken_try example_config
      (revokeToken empty_store 1700000000123 example_refresh_token) 1700000000123 1700000000123
      example_refresh_token = Inl (AuthenticationError ''Token has been revoked'') \<and>
   refreshAccessToken example_config
      (revokeToken empty_store 1700000000123 example_refresh_token) 1700000000123 1700000000123
      example_refresh_token = Inl (AuthenticationError ''Failed to refresh token'')"
proof -
  have rev: "isTokenRevoked revoked_store example_refresh_token"
    by (simp add: isTokenRevoked_def getRedisClient_def redis_get_def revoked_store_def)
  have ty: "type example_refresh_payload = Some ''refresh''"
    by (simp add: example_refresh_payload_def)
  have inner: "refreshAccessToken_try example_config revoked_store 1700000000123 1700000000123
      example_refresh_token = Inl (AuthenticationError ''Token has been revoked'')"
    by (simp add: refreshAccessToken_try_def example_refresh_token_verifies ty rev)
  show ?thesis
    by (simp add: revoked_store_revokeToken rev inner refreshAccessToken_def)
qed

text \<open>
  C4. A token that verifies against the refresh secret but whose \<^verbatim>\<open>type\<close> is not
  \<^verbatim>\<open>refresh\<close> (absent included) makes \<^verbatim>\<open>refreshAccessToken\<close> fail with an
  AuthenticationError, whatever the store says; no access token is returned.
\<close>

theorem refreshAccessToken_wrong_type:
  assumes "jwt_verify tok (jwtRefreshSecret cfg) now = Inr decoded"
    and "type decoded \<noteq> Some ''refresh''"
  shows "refreshAccessToken cfg r now now' tok
           = Inl (AuthenticationError ''Failed to refresh token'') \<and>
         (\<forall>result. refreshAccessToken cfg r now now' tok \<noteq> Inr result)"
  using assms by (simp add: refreshAccessToken_def refreshAccessToken_try_def)

text \<open>A token with an access token's body, signed with the refresh secret.\<close>

theorem refreshAccessToken_wrong_type_witness:
  "jwt_verify example_untyped_token (jwtRefreshSecret example_config) 1700000000123
     = Inr example_access_payload \<and>
   type example_access_payload = None \<and>
   refreshAccessToken example_config empty_store 1700000000123 1700000000123
     example_untyped_token = Inl (AuthenticationError ''Failed to refresh token'')"
proof -
  have v: "jwt_verify example_untyped_token (jwtRefreshSecret example_config) 1700000000123
     = Inr example_access_payload"
    by (simp add: jwt_verify_def example_untyped_token_def example_access_payload_def
        example_config_def)
  have t: "type example_access_payload \<noteq> Some ''refresh''"
    by (simp add: example_access_payload_def)
  from refreshAccessToken_wrong_type[OF v t, of empty_store 1700000000123] v show ?thesis
    by (simp add: example_access_payload_def)
qed

text \<open>
  C6. Modelled against the signing library: with a non-empty access secret and a
  configured access expiry of at least one second, \<^verbatim>\<open>generateAccessToken\<close> returns a
  token; \<^verbatim>\<open>verifyToken\<close> on it at the same clock reading, with no secret given or the
  access secret given, returns the three inputs together with \<^verbatim>\<open>iat\<close> and \<^verbatim>\<open>exp\<close>; and at
  any clock reading that is the configured expiry or more later it fails with the
  AuthenticationError \<^verbatim>\<open>Invalid or expired token\<close>.
\<close>

theorem access_token_round_trip:
  assumes "jwtAccessSecret cfg \<noteq> []" and "ms (jwtAccessExpiry cfg) = Some millis"
    and "1000 \<le> millis"
    and "secret = None \<or> secret = Some (jwtAccessSecret cfg)"
  shows "\<exists>tok. generateAccessToken cfg now uid mail rs = Inr tok \<and>
           verifyToken cfg now tok secret =
             Inr \<lparr>userId = Some uid, email = Some mail, roles = Some rs, type = None,
                  iat = Some (now div 1000), exp = Some (now div 1000 + millis div 1000)\<rparr> \<and>
           (\<forall>now'. now + millis \<le> now' \<longrightarrow>
              verifyToken cfg now' tok secret
                = Inl (AuthenticationError ''Invalid or expired token''))"
proof -
  let ?p = "\<lparr>userId = Some uid, email = Some mail, roles = Some rs, type = None,
            iat = Some (now div 1000), exp = Some (now div 1000 + millis div 1000)\<rparr>"
  have gen: "generateAccessToken cfg now uid mail rs = Inr (JWT ?p (jwtAccessSecret cfg))"
    using assms(1,2) by (simp add: generateAccessToken_def jwt_sign_def Let_def)
  have sec: "(case secret of None \<Rightarrow> jwtAccessSecret cfg
              | Some s \<Rightarrow> if s \<noteq> [] then s else jwtAccessSecret cfg) = jwtAccessSecret cfg"
    using assms(4) by auto
  have pos: "0 < millis div 1000" using assms(3) by arith
  have same: "verifyToken cfg now (JWT ?p (jwtAccessSecret cfg)) secret = Inr ?p"
    using assms(1) pos by (simp add: verifyToken_def sec jwt_verify_def)
  have later: "verifyToken cfg now' (JWT ?p (jwtAccessSecret cfg)) secret
                 = Inl (AuthenticationError ''Invalid or expired token'')"
    if "now + millis \<le> now'" for now'
    using assms(1) seconds_advance[OF that] by (simp add: verifyToken_def sec jwt_verify_def)
  show ?thesis using gen same later by blast
qed

text \<open>The example's access token: verified 123 ms into its first second, and rejected
  exactly 900000 ms later.\<close>

theorem access_token_round_trip_witness:
  "generateAccessToken example_config 1700000000123 ''u1'' ''u1@x.com'' [''user'']
     = Inr example_access_token \<and>
   verifyToken example_config 1700000000123 example_access_token None
     = Inr example_access_payload \<and>
   verifyToken example_config 1700000900123 example_access_token None
     = Inl (AuthenticationError ''Invalid or expired token'')"
proof -
  have s: "jwtAccessSecret example_config \<noteq> []" by (simp add: example_config_def)
  have m: "ms (jwtAccessExpiry example_config) = Some 900000"
    by (simp add: example_config_def ms_15m)
  from access_token_round_trip[OF s m, of None 1700000000123 "''u1''" "''u1@x.com''" "[''user'']"]
  show ?thesis
    by (simp add: example_access_token_issued example_access_payload_def)
qed

text \<open>
  C7. With the clock not before the epoch, non-empty secrets and expiries that are time
  spans, \<^verbatim>\<open>generateTokenPair\<close> returns a pair whose \<^verbatim>\<open>expiresIn\<close> is \<open>(exp - iat) * 1000\<close>
  for the \<^verbatim>\<open>iat\<close> and \<^verbatim>\<open>exp\<close> decoded from the pair's own access token; when the access
  expiry is the default \<^verbatim>\<open>15m\<close>, that is 900000.
\<close>

theorem generateTokenPair_expiresIn:
  assumes "0 \<le> now"
    and "jwtAccessSecret cfg \<noteq> []" and "jwtRefreshSecret cfg \<noteq> []"
    and "ms (jwtAccessExpiry cfg) = Some millis" and "ms (jwtRefreshExpiry cfg) = Some millis'"
  shows "\<exists>pair decoded i e. generateTokenPair cfg now now' uid mail rs = Inr pair \<and>
           jwt_decode (accessToken pair) = Some decoded \<and>
           iat decoded = Some i \<and> exp decoded = Some e \<and>
           expiresIn pair = Num ((e - i) * 1000) \<and>
           (jwtAccessExpiry cfg = ''15m'' \<longrightarrow> expiresIn pair = Num 900000)"
proof -
  have a: "0 \<le> now div 1000" using assms(1) by arith
  have b: "0 \<le> millis div 1000" using ms_nonneg[OF assms(4)] by arith
  have z: "now div 1000 + millis div 1000 = 0 \<Longrightarrow> millis div 1000 = 0" using a b by arith
  have m: "jwtAccessExpiry cfg = ''15m'' \<Longrightarrow> millis = 900000" using assms(4) ms_15m by simp
  show ?thesis using assms(2-5) z m
    by (auto simp: generateTokenPair_def generateAccessToken_def generateRefreshToken_def
          jwt_sign_def jwt_decode_def Let_def expiry_millis_def)
qed

text \<open>The login of the spec's scenario under the default configuration.\<close>

theorem generateTokenPair_expiresIn_witness:
  "generateTokenPair example_config 1700000000123 1700000000123 ''u1'' ''u1@x.com'' [''user'']
     = Inr \<lparr>accessToken = example_access_token, refreshToken = example_refresh_token,
            expiresIn = Num 900000\<rparr>"
proof -
  have h: "(0::int) \<le> 1700000000123" "jwtAccessSecret example_config \<noteq> []"
    "jwtRefreshSecret example_config \<noteq> []"
    "ms (jwtAccessExpiry example_config) = Some 900000"
    "ms (jwtRefreshExpiry example_config) = Some 604800000"
    by (simp_all add: example_config_def ms_15m ms_7d)
  have d: "jwt_decode example_access_token = Some example_access_payload"
    by (simp add: jwt_decode_def example_access_token_def)
  from generateTokenPair_expiresIn[OF h, of 1700000000123 "''u1''" "''u1@x.com''" "[''user'']"]
  obtain pair where p: "generateTokenPair example_config 1700000000123 1700000000123
      ''u1'' ''u1@x.com'' [''user''] = Inr pair" and n: "expiresIn pair = Num 900000"
    by (auto simp: example_config_def)
  from p have "accessToken pair = example_access_token \<and> refreshToken pair = example_refresh_token"
    by (auto simp: generateTokenPair_def example_access_token_issued
        example_refresh_token_issued d)
  with n have "pair = \<lparr>accessToken = example_access_token, refreshToken = example_refresh_token,
            expiresIn = Num 900000\<rparr>" by (cases pair) simp
  with p show ?thesis by simp
qed

text \<open>
  C9. For a refresh token that verifies, has the type \<^verbatim>\<open>refresh\<close> and is not on the
  denylist (the access secret non-empty, the access expiry a time span),
  \<^verbatim>\<open>refreshAccessToken\<close> returns an access token whose decoded body has the \<^verbatim>\<open>userId\<close> of
  the refresh token and neither \<^verbatim>\<open>email\<close> nor \<^verbatim>\<open>roles\<close> (nor \<^verbatim>\<open>type\<close>); besides \<^verbatim>\<open>userId\<close>
  it holds only the \<^verbatim>\<open>iat\<close> and \<^verbatim>\<open>exp\<close> that signing adds. The access token of a login
  holds \<^verbatim>\<open>email\<close> and \<^verbatim>\<open>roles\<close>.
\<close>

theorem refreshAccessToken_minimal_claims:
  assumes "jwt_verify tok (jwtRefreshSecret cfg) now = Inr decoded"
    and "type decoded = Some ''refresh''" and "\<not> isTokenRevoked r tok"
    and "jwtAccessSecret cfg \<noteq> []" and "ms (jwtAccessExpiry cfg) = Some millis"
  shows "\<exists>access n body. refreshAccessToken cfg r now now' tok = Inr (access, n) \<and>
           jwt_decode access = Some body \<and>
           body = \<lparr>userId = TokenPayload.userId decoded, email = None, roles = None,
                   type = None, iat = Some (now' div 1000),
                   exp = Some (now' div 1000 + millis div 1000)\<rparr> \<and>
           (\<forall>uid mail rs login. generateAccessToken cfg now' uid mail rs = Inr login \<longrightarrow>
              (\<exists>body'. jwt_decode login = Some body' \<and> email body' = Some mail \<and>
                 roles body' = Some rs))"
  using assms
  by (auto simp: refreshAccessToken_def refreshAccessToken_try_def generateAccessToken_def
      jwt_sign_def jwt_decode_def Let_def)

text \<open>Refreshing with the example's refresh token on an empty denylist.\<close>

theorem refreshAccessToken_minimal_claims_witness:
  "refreshAccessToken example_config empty_store 1700000000123 1700000000123
     example_refresh_token
     = Inr (JWT \<lparr>userId = Some ''u1'', email = None, roles = None, type = None,
                 iat = Some 1700000000, exp = Some 1700000900\<rparr>
              ''access-secret-0123456789-0123456789'', Num 900000)"
proof -
  have t: "type example_refresh_payload = Some ''refresh''"
    by (simp add: example_refresh_payload_def)
  have n: "\<not> isTokenRevoked empty_store example_refresh_token"
    by (simp add: isTokenRevoked_def getRedisClient_def redis_get_def empty_store_def)
  have s: "jwtAccessSecret example_config \<noteq> []" by (simp add: example_config_def)
  have m: "ms (jwtAccessExpiry example_config) = Some 900000"
    by (simp add: example_config_def ms_15m)
  from refreshAccessToken_minimal_claims[OF example_refresh_token_verifies t n s m,
      of 1700000000123]
  obtain access n body where
    r: "refreshAccessToken example_config empty_store 1700000000123 1700000000123
          example_refresh_token = Inr (access, n)"
    and d: "jwt_decode access = Some body"
    and b: "body = \<lparr>userId = TokenPayload.userId example_refresh_payload, email = None,
                    roles = None, type = None, iat = Some (1700000000123 div 1000),
                    exp = Some (1700000000123 div 1000 + 900000 div 1000)\<rparr>"
    by blast
  from r have "n = expiry_millis body \<and> access = JWT body (jwtAccessSecret example_config)"
    using d
    by (auto simp: refreshAccessToken_def refreshAccessToken_try_def jwt_sign_def jwt_decode_def
        Let_def split: sum.splits if_splits option.splits token.splits)
  with r b show ?thesis
    by (simp add: expiry_millis_def example_refresh_payload_def example_config_def)
qed

section \<open>SessionService\<close>

lemma SESSION_TTL_pos: "0 < SESSION_TTL"
  by (simp add: SESSION_TTL_def)

lemma session_key_matches: "matches_prefix SESSION_PREFIX (session_key sessionId)"
  by (simp add: matches_prefix_def session_key_def)

lemma getSession_SomeD:
  assumes "getSession r sessionId = Inr (Some s)"
  shows "initialized r \<and> online r \<and>
         (\<exists>e. map_of (kv r) (session_key sessionId) = Some e \<and> val e = SessionJSON s)"
  using assms
  by (auto simp: getSession_def getRedisClient_def redis_get_def JSON_parse_def truthy_def
      split: if_splits sum.splits option.splits redis_value.splits)

lemma getSession_lookup:
  assumes "initialized r" and "online r"
    and "map_of (kv r) (session_key sessionId) = Some e" and "val e = SessionJSON s"
  shows "getSession r sessionId = Inr (Some s)"
  using assms
  by (simp add: getSession_def getRedisClient_def redis_get_def JSON_parse_def truthy_def)

lemma getSession_absent:
  assumes "initialized r" and "online r" and "map_of (kv r) (session_key sessionId) = None"
  shows "getSession r sessionId = Inr None"
  using assms by (simp add: getSession_def getRedisClient_def redis_get_def)

text \<open>What \<^verbatim>\<open>createSession\<close> writes: the time to live, in milliseconds, is the record's
  \<^verbatim>\<open>expiresAt\<close> minus the clock.\<close>

lemma createSession_ttl:
  assumes "createSession r now sessionId uid ip agent = Inr (r', s)"
  shows "\<exists>e t. map_of (kv r') (session_key sessionId) = Some e \<and> val e = SessionJSON s \<and>
           ttl e = Some t \<and> t * 1000 = expiresAt s - now"
  using assms
  by (auto simp: createSession_def getRedisClient_def redis_setEx_def JSON_stringify_def
      AList.update_conv' Let_def SESSION_TTL_def split: if_splits sum.splits)

text \<open>What \<^verbatim>\<open>updateActivity\<close> writes for a session that is there: the record with
  \<^verbatim>\<open>lastActivityAt\<close> set to the clock, under the full time to live.\<close>

lemma updateActivity_result:
  assumes "getSession r sessionId = Inr (Some s)"
  shows "updateActivity r now sessionId =
           Inr (r\<lparr>kv := AList.update (session_key sessionId)
                           \<lparr>val = SessionJSON (s\<lparr>lastActivityAt := now\<rparr>),
                            ttl = Some SESSION_TTL\<rparr> (kv r)\<rparr>)"
  using assms getSession_SomeD[OF assms] SESSION_TTL_pos
  by (simp add: updateActivity_def getRedisClient_def redis_setEx_def JSON_stringify_def)

text \<open>
  C5. The two writes of a session's record: a session created when the clock
  reads 1000 and touched when it reads 61000. \<^verbatim>\<open>createSession\<close> stores the record under a
  time to live of 604800 s, which is its \<^verbatim>\<open>expiresAt\<close> minus the clock;
  \<^verbatim>\<open>updateActivity\<close> stores it again under 604800 s with \<^verbatim>\<open>expiresAt\<close> as it was, when
  \<^verbatim>\<open>expiresAt\<close> minus the clock is 604740 s.
\<close>

theorem updateActivity_ttl_exceeds_expiresAt:
  "\<exists>r1 s e1 r2 e2.
      createSession empty_store 1000 ''s1'' ''A'' None None = Inr (r1, s) \<and>
      map_of (kv r1) (session_key ''s1'') = Some e1 \<and> val e1 = SessionJSON s \<and>
      ttl e1 = Some 604800 \<and> expiresAt s - 1000 = 604800 * 1000 \<and>
      updateActivity r1 61000 ''s1'' = Inr r2 \<and>
      map_of (kv r2) (session_key ''s1'') = Some e2 \<and>
      val e2 = SessionJSON (s\<lparr>lastActivityAt := 61000\<rparr>) \<and>
      ttl e2 = Some 604800 \<and> expiresAt s - 61000 = 604740 * 1000"
  by (simp add: createSession_def updateActivity_def getSession_def getRedisClient_def
      redis_setEx_def redis_get_def JSON_stringify_def JSON_parse_def truthy_def
      session_key_def SESSION_PREFIX_def SESSION_TTL_def empty_store_def Let_def)

text \<open>
  C10. For a session that \<^verbatim>\<open>getSession\<close> finds, \<^verbatim>\<open>updateActivity\<close> succeeds, and the record
  read back afterwards has the same \<^verbatim>\<open>id\<close>, \<^verbatim>\<open>userId\<close>, \<^verbatim>\<open>createdAt\<close>, \<^verbatim>\<open>expiresAt\<close>,
  \<^verbatim>\<open>ipAddress\<close> and \<^verbatim>\<open>userAgent\<close>, with \<^verbatim>\<open>lastActivityAt\<close> set to the clock; no other key
  of the store changes.
\<close>

theorem updateActivity_touches_lastActivityAt_only:
  assumes "getSession r sessionId = Inr (Some s)"
  shows "\<exists>r' s'. updateActivity r now sessionId = Inr r' \<and>
           getSession r' sessionId = Inr (Some s') \<and>
           id' s' = id' s \<and> Session.userId s' = Session.userId s \<and>
           createdAt s' = createdAt s \<and> expiresAt s' = expiresAt s \<and>
           ipAddress s' = ipAddress s \<and> userAgent s' = userAgent s \<and>
           lastActivityAt s' = now \<and>
           (\<forall>k. k \<noteq> session_key sessionId \<longrightarrow> map_of (kv r') k = map_of (kv r) k)"
proof -
  from getSession_SomeD[OF assms] have ready: "initialized r" "online r" by simp_all
  let ?e = "\<lparr>val = SessionJSON (s\<lparr>lastActivityAt := now\<rparr>), ttl = Some SESSION_TTL\<rparr>"
  let ?r' = "r\<lparr>kv := AList.update (session_key sessionId) ?e (kv r)\<rparr>"
  have upd: "updateActivity r now sessionId = Inr ?r'"
    using assms by (rule updateActivity_result)
  have get: "getSession ?r' sessionId = Inr (Some (s\<lparr>lastActivityAt := now\<rparr>))"
    by (rule getSession_lookup[where e = ?e]) (simp_all add: ready AList.update_conv')
  have frame: "\<forall>k. k \<noteq> session_key sessionId \<longrightarrow> map_of (kv ?r') k = map_of (kv r) k"
    by (simp add: AList.update_conv')
  show ?thesis using upd get frame by simp
qed

text \<open>Session \<^verbatim>\<open>b1\<close> of the example store, touched when the clock reads 61000.\<close>

theorem updateActivity_touches_lastActivityAt_only_witness:
  "getSession store_AB ''b1'' = Inr (Some (example_session ''b1'' ''B'')) \<and>
   (\<exists>r'. updateActivity store_AB 61000 ''b1'' = Inr r' \<and>
      getSession r' ''b1'' = Inr (Some ((example_session ''b1'' ''B'')\<lparr>lastActivityAt := 61000\<rparr>)) \<and>
      map_of (kv r') (session_key ''a1'') = map_of (kv store_AB) (session_key ''a1''))"
proof -
  have g: "getSession store_AB ''b1'' = Inr (Some (example_session ''b1'' ''B''))"
    by (simp add: getSession_def getRedisClient_def redis_get_def JSON_parse_def truthy_def
        session_key_def SESSION_PREFIX_def store_AB_def example_entry_def)
  have ne: "session_key ''a1'' \<noteq> session_key ''b1''"
    by (simp add: session_key_def)
  from updateActivity_touches_lastActivityAt_only[OF g, of 61000]
  obtain r' s' where u: "updateActivity store_AB 61000 ''b1'' = Inr r'"
    and g': "getSession r' ''b1'' = Inr (Some s')"
    and f: "id' s' = id' (example_session ''b1'' ''B'')"
      "Session.userId s' = Session.userId (example_session ''b1'' ''B'')"
      "createdAt s' = createdAt (example_session ''b1'' ''B'')"
      "expiresAt s' = expiresAt (example_session ''b1'' ''B'')"
      "ipAddress s' = ipAddress (example_session ''b1'' ''B'')"
      "userAgent s' = userAgent (example_session ''b1'' ''B'')"
      "lastActivityAt s' = 61000"
    and fr: "\<forall>k. k \<noteq> session_key ''b1'' \<longrightarrow> map_of (kv r') k = map_of (kv store_AB) k"
    by blast
  from f have "s' = (example_session ''b1'' ''B'')\<lparr>lastActivityAt := 61000\<rparr>"
    by (cases s') (simp add: example_session_def)
  with g u g' fr ne show ?thesis by simp
qed

subsection \<open>Scanning the session keys\<close>

lemma delete_filter: "AList.delete k al = filter (\<lambda>(k', e). k' \<noteq> k) al"
  by (induction al) (auto simp: AList.delete_eq)

lemma map_of_filter_key:
  "map_of (filter (\<lambda>(k, e). Q k) al) k = (if Q k then map_of al k else None)"
  by (induction al) auto

lemma map_fst_filter_key:
  "map fst (filter (\<lambda>(k, e). Q k) al) = filter Q (map fst al)"
  by (induction al) auto

lemma holds_session_of_cong:
  "map_of (kv r') k = map_of (kv r) k \<Longrightarrow> holds_session_of uid r' k = holds_session_of uid r k"
  by (simp add: holds_session_of_def)

lemma map_filter_empty: "(\<forall>x\<in>set xs. f x = None) \<Longrightarrow> List.map_filter f xs = []"
  by (induction xs) (auto simp: List.map_filter_simps)

lemma map_filter_filter:
  "(\<forall>x\<in>set xs. \<not> Q x \<longrightarrow> f x = None) \<Longrightarrow> (\<forall>x\<in>set xs. Q x \<longrightarrow> g x = f x) \<Longrightarrow>
   List.map_filter g (filter Q xs) = List.map_filter f xs"
  by (induction xs) (auto simp: List.map_filter_simps split: option.splits)

text \<open>The deleting loop, run over any list of keys whose values are session values,
  removes exactly the entries under those keys that hold a session of the user.\<close>

lemma revoke_loop_result:
  assumes "online r"
    and "\<forall>k\<in>set keys. \<forall>e. map_of (kv r) k = Some e \<longrightarrow> session_value (val e)"
  shows "revoke_loop uid r keys =
           Inr (r\<lparr>kv := filter (\<lambda>(k, e). \<not> (k \<in> set keys \<and> holds_session_of uid r k)) (kv r)\<rparr>)"
  using assms
proof (induction keys arbitrary: r)
  case Nil
  then show ?case by simp
next
  case (Cons key keys)
  have rest: "\<forall>k\<in>set keys. \<forall>e. map_of (kv r) k = Some e \<longrightarrow> session_value (val e)"
    using Cons.prems(2) by simp
  show ?case
  proof (cases "holds_session_of uid r key")
    case False
    then have step: "revoke_loop uid r (key # keys) = revoke_loop uid r keys"
      using Cons.prems
      by (auto simp: holds_session_of_def redis_get_def JSON_parse_def truthy_def
          session_value_def split: option.splits redis_value.splits)
    have "filter (\<lambda>(k, e). \<not> (k \<in> set (key # keys) \<and> holds_session_of uid r k)) (kv r)
        = filter (\<lambda>(k, e). \<not> (k \<in> set keys \<and> holds_session_of uid r k)) (kv r)"
      using False by (intro filter_cong) auto
    then show ?thesis using step Cons.IH[OF Cons.prems(1) rest] by simp
  next
    case True
    let ?r' = "r\<lparr>kv := AList.delete key (kv r)\<rparr>"
    have step: "revoke_loop uid r (key # keys) = revoke_loop uid ?r' keys"
      using True Cons.prems(1)
      by (auto simp: holds_session_of_def redis_get_def redis_del_def JSON_parse_def truthy_def
          split: option.splits redis_value.splits)
    have look: "map_of (kv ?r') k = (if k = key then None else map_of (kv r) k)" for k
      by (simp add: AList.delete_conv')
    have on: "online ?r'" using Cons.prems(1) by simp
    have rest': "\<forall>k\<in>set keys. \<forall>e. map_of (kv ?r') k = Some e \<longrightarrow> session_value (val e)"
      using rest by (auto simp: AList.delete_conv' split: if_splits)
    have h: "holds_session_of uid ?r' k = holds_session_of uid r k" if "k \<noteq> key" for k
      using that by (intro holds_session_of_cong) (simp add: look)
    have pt: "(k \<noteq> key \<and> \<not> (k \<in> set keys \<and> holds_session_of uid ?r' k))
               = (\<not> (k \<in> set (key # keys) \<and> holds_session_of uid r k))" for k
      using True h[of k] by auto
    have "filter (\<lambda>(k, e). \<not> (k \<in> set keys \<and> holds_session_of uid ?r' k)) (kv ?r')
        = filter (\<lambda>(k, e). k \<noteq> key \<and> \<not> (k \<in> set keys \<and> holds_session_of uid ?r' k)) (kv r)"
      by (simp add: delete_filter case_prod_unfold conj_commute)
    also have "\<dots> = filter (\<lambda>(k, e). \<not> (k \<in> set (key # keys) \<and> holds_session_of uid r k)) (kv r)"
      by (simp only: pt)
    finally have "filter (\<lambda>(k, e). \<not> (k \<in> set keys \<and> holds_session_of uid ?r' k)) (kv ?r')
        = filter (\<lambda>(k, e). \<not> (k \<in> set (key # keys) \<and> holds_session_of uid r k)) (kv r)" .
    then show ?thesis using step Cons.IH[OF on rest'] by simp
  qed
qed

text \<open>The collecting loop appends the user's sessions in the order of the keys.\<close>

lemma sessions_loop_result:
  assumes "online r"
    and "\<forall>k\<in>set keys. \<forall>e. map_of (kv r) k = Some e \<longrightarrow> session_value (val e)"
  shows "sessions_loop uid r keys found = Inr (found @ sessions_at uid r keys)"
  using assms
proof (induction keys arbitrary: found)
  case Nil
  then show ?case by (simp add: sessions_at_def List.map_filter_simps)
next
  case (Cons key keys)
  then show ?case
    by (auto simp: sessions_at_def List.map_filter_simps redis_get_def JSON_parse_def
        truthy_def session_value_def split: option.splits redis_value.splits)
qed

lemma session_entries_okD:
  assumes "session_entries_ok r" and "matches_prefix SESSION_PREFIX k"
    and "map_of (kv r) k = Some e"
  shows "session_value (val e)"
proof -
  from assms(3) have "(k, e) \<in> set (kv r)" by (rule map_of_SomeD)
  with assms(1,2) show ?thesis by (auto simp: session_entries_ok_def list_all_iff)
qed

lemma session_keys_ok:
  assumes "session_entries_ok r"
  shows "\<forall>k\<in>set (filter (matches_prefix SESSION_PREFIX) (remdups (map fst (kv r)))).
           \<forall>e. map_of (kv r) k = Some e \<longrightarrow> session_value (val e)"
  using session_entries_okD[OF assms] by auto

lemma revokeAllUserSessions_result:
  assumes "initialized r" and "online r" and "session_entries_ok r"
  shows "revokeAllUserSessions r uid = Inr (without_sessions_of uid r)"
proof -
  let ?keys = "filter (matches_prefix SESSION_PREFIX) (remdups (map fst (kv r)))"
  have "filter (\<lambda>(k, e). \<not> (k \<in> set ?keys \<and> holds_session_of uid r k)) (kv r)
      = filter (\<lambda>(k, e). \<not> (matches_prefix SESSION_PREFIX k \<and> holds_session_of uid r k)) (kv r)"
    by (rule filter_cong) force+
  then show ?thesis
    using assms(1,2) revoke_loop_result[OF assms(2) session_keys_ok[OF assms(3)], of uid]
    by (simp add: revokeAllUserSessions_def getRedisClient_def redis_keys_def
        without_sessions_of_def)
qed

lemma getUserSessions_result:
  assumes "initialized r" and "online r" and "session_entries_ok r"
  shows "getUserSessions r uid =
           Inr (sessions_at uid r
                  (filter (matches_prefix SESSION_PREFIX) (remdups (map fst (kv r)))))"
  using assms sessions_loop_result[OF assms(2) session_keys_ok[OF assms(3)], of uid "[]"]
  by (simp add: getUserSessions_def getRedisClient_def redis_keys_def)

lemma map_of_without:
  "map_of (kv (without_sessions_of uid r)) k =
     (if matches_prefix SESSION_PREFIX k \<and> holds_session_of uid r k then None
      else map_of (kv r) k)"
  using map_of_filter_key[of
      "\<lambda>k. \<not> (matches_prefix SESSION_PREFIX k \<and> holds_session_of uid r k)" "kv r" k]
  by (simp add: without_sessions_of_def)

lemma without_flags:
  "initialized (without_sessions_of uid r) = initialized r"
  "online (without_sessions_of uid r) = online r"
  by (simp_all add: without_sessions_of_def)

lemma without_ok: "session_entries_ok r \<Longrightarrow> session_entries_ok (without_sessions_of uid r)"
  by (auto simp: session_entries_ok_def without_sessions_of_def list_all_iff)

lemma keys_without:
  "filter (matches_prefix SESSION_PREFIX) (remdups (map fst (kv (without_sessions_of uid r))))
   = filter (\<lambda>k. \<not> holds_session_of uid r k)
       (filter (matches_prefix SESSION_PREFIX) (remdups (map fst (kv r))))"
proof -
  have "map fst (kv (without_sessions_of uid r))
      = filter (\<lambda>k. \<not> (matches_prefix SESSION_PREFIX k \<and> holds_session_of uid r k))
          (map fst (kv r))"
    unfolding without_sessions_of_def
    using map_fst_filter_key[of
        "\<lambda>k. \<not> (matches_prefix SESSION_PREFIX k \<and> holds_session_of uid r k)" "kv r"]
    by simp
  then show ?thesis
    by (auto simp: remdups_filter intro!: filter_cong)
qed

text \<open>The services keep the session keys well-formed.\<close>

lemma createSession_keeps_ok:
  assumes "session_entries_ok r" and "createSession r now sessionId uid ip agent = Inr (r', s)"
  shows "session_entries_ok r'"
proof -
  have "list_all P (AList.update k v al)" if "list_all P al" "P (k, v)"
    for P and k :: redis_key and v :: redis_entry and al
    using that by (induction al) auto
  then show ?thesis using assms
    by (auto simp: createSession_def getRedisClient_def redis_setEx_def JSON_stringify_def
        session_entries_ok_def session_value_def Let_def split: if_splits)
qed

lemma revokeToken_keeps_ok:
  assumes "session_entries_ok r"
  shows "session_entries_ok (revokeToken r now tok)"
proof -
  have "list_all P (AList.update k v al)" if "list_all P al" "P (k, v)"
    for P and k :: redis_key and v :: redis_entry and al
    using that by (induction al) auto
  then show ?thesis using assms
    by (auto simp: revokeToken_def getRedisClient_def redis_setEx_def matches_prefix_def
        session_entries_ok_def Let_def split: if_splits option.splits)
qed

lemma updateActivity_keeps_ok:
  assumes "session_entries_ok r" and "updateActivity r now sessionId = Inr r'"
  shows "session_entries_ok r'"
proof -
  have "list_all P (AList.update k v al)" if "list_all P al" "P (k, v)"
    for P and k :: redis_key and v :: redis_entry and al
    using that by (induction al) auto
  then show ?thesis using assms
    by (auto simp: updateActivity_def getRedisClient_def redis_setEx_def JSON_stringify_def
        session_entries_ok_def session_value_def split: if_splits sum.splits option.splits)
qed

lemma revokeSession_keeps_ok:
  assumes "session_entries_ok r" and "revokeSession r sessionId = Inr r'"
  shows "session_entries_ok r'"
  using assms
  by (auto simp: revokeSession_def getRedisClient_def redis_del_def delete_filter
      session_entries_ok_def list_all_iff split: if_splits)

text \<open>
  C8. On an initialised, reachable store whose session keys hold session records,
  \<^verbatim>\<open>revokeAllUserSessions\<close> succeeds; afterwards every session of the user that
  \<^verbatim>\<open>getSession\<close> found before is absent, every session of another user is read back as
  before, every key that did not hold a session of the user has the entry it had,
  \<^verbatim>\<open>getUserSessions\<close> of the user is the empty list, and \<^verbatim>\<open>getUserSessions\<close> of every other
  user returns the sessions it returned before.
\<close>

theorem revokeAllUserSessions_frame:
  assumes "initialized r" and "online r" and "session_entries_ok r"
  shows "\<exists>r'. revokeAllUserSessions r uid = Inr r' \<and>
      (\<forall>sessionId s. getSession r sessionId = Inr (Some s) \<and> Session.userId s = uid
         \<longrightarrow> getSession r' sessionId = Inr None) \<and>
      (\<forall>sessionId s. getSession r sessionId = Inr (Some s) \<and> Session.userId s \<noteq> uid
         \<longrightarrow> getSession r' sessionId = Inr (Some s)) \<and>
      (\<forall>k. \<not> (matches_prefix SESSION_PREFIX k \<and> holds_session_of uid r k)
         \<longrightarrow> map_of (kv r') k = map_of (kv r) k) \<and>
      getUserSessions r' uid = Inr [] \<and>
      (\<forall>uid'. uid' \<noteq> uid \<longrightarrow>
         (\<exists>before after. getUserSessions r uid' = Inr before \<and>
            getUserSessions r' uid' = Inr after \<and> set after = set before))"
proof -
  let ?r' = "without_sessions_of uid r"
  let ?keys = "filter (matches_prefix SESSION_PREFIX) (remdups (map fst (kv r)))"
  have ready': "initialized ?r'" "online ?r'" "session_entries_ok ?r'"
    using assms by (simp_all add: without_flags without_ok)
  have res: "revokeAllUserSessions r uid = Inr ?r'"
    using assms by (rule revokeAllUserSessions_result)
  have gone: "getSession ?r' sessionId = Inr None"
    if "getSession r sessionId = Inr (Some s) \<and> Session.userId s = uid" for sessionId s
  proof -
    from that getSession_SomeD[of r sessionId s]
    have "holds_session_of uid r (session_key sessionId)" by (auto simp: holds_session_of_def)
    then have "map_of (kv ?r') (session_key sessionId) = None"
      by (simp add: map_of_without session_key_matches)
    with ready' show ?thesis by (intro getSession_absent)
  qed
  have kept: "getSession ?r' sessionId = Inr (Some s)"
    if "getSession r sessionId = Inr (Some s) \<and> Session.userId s \<noteq> uid" for sessionId s
  proof -
    from that getSession_SomeD[of r sessionId s] obtain e
      where e: "map_of (kv r) (session_key sessionId) = Some e" "val e = SessionJSON s" by auto
    with that have "\<not> holds_session_of uid r (session_key sessionId)"
      by (simp add: holds_session_of_def)
    then have "map_of (kv ?r') (session_key sessionId) = Some e" by (simp add: map_of_without e)
    with ready' e show ?thesis by (intro getSession_lookup)
  qed
  have frame: "\<forall>k. \<not> (matches_prefix SESSION_PREFIX k \<and> holds_session_of uid r k)
         \<longrightarrow> map_of (kv ?r') k = map_of (kv r) k"
    by (simp add: map_of_without)
  have none: "getUserSessions ?r' uid = Inr []"
  proof -
    have "sessions_at uid ?r' ks = []" if "\<forall>k\<in>set ks. matches_prefix SESSION_PREFIX k" for ks
      unfolding sessions_at_def
      using that
      by (intro map_filter_empty)
         (auto simp: map_of_without holds_session_of_def split: option.splits redis_value.splits)
    then show ?thesis
      using getUserSessions_result[OF ready', of uid] by simp
  qed
  have others: "\<exists>before after. getUserSessions r uid' = Inr before \<and>
      getUserSessions ?r' uid' = Inr after \<and> set after = set before"
    if "uid' \<noteq> uid" for uid'
  proof -
    have "sessions_at uid' ?r' (filter (\<lambda>k. \<not> holds_session_of uid r k) ?keys)
        = sessions_at uid' r ?keys"
      unfolding sessions_at_def
      using that
      by (intro map_filter_filter)
         (auto simp: map_of_without holds_session_of_def split: option.splits redis_value.splits)
    then have "getUserSessions ?r' uid' = getUserSessions r uid'"
      using getUserSessions_result[OF ready', of uid'] getUserSessions_result[OF assms, of uid']
      by (simp add: keys_without)
    then show ?thesis
      using getUserSessions_result[OF assms, of uid'] by simp
  qed
  show ?thesis using res gone kept frame none others by blast
qed

text \<open>The spec's scenario: three sessions of \<^verbatim>\<open>A\<close>, one of \<^verbatim>\<open>B\<close>, revoke all of \<^verbatim>\<open>A\<close>.\<close>

theorem revokeAllUserSessions_frame_witness:
  "session_entries_ok store_AB \<and>
   getSession store_AB ''a3'' = Inr (Some (example_session ''a3'' ''A'')) \<and>
   getSession store_AB ''b1'' = Inr (Some (example_session ''b1'' ''B'')) \<and>
   (\<exists>r'. revokeAllUserSessions store_AB ''A'' = Inr r' \<and>
      getUserSessions r' ''A'' = Inr [] \<and>
      getSession r' ''a3'' = Inr None \<and>
      getSession r' ''b1'' = Inr (Some (example_session ''b1'' ''B'')))"
proof -
  have ready: "initialized store_AB" "online store_AB" by (simp_all add: store_AB_def)
  have ok: "session_entries_ok store_AB"
    by (simp add: session_entries_ok_def session_value_def store_AB_def example_entry_def)
  have a3: "getSession store_AB ''a3'' = Inr (Some (example_session ''a3'' ''A''))"
    by (simp add: getSession_def getRedisClient_def redis_get_def JSON_parse_def truthy_def
        session_key_def SESSION_PREFIX_def store_AB_def example_entry_def)
  have b1: "getSession store_AB ''b1'' = Inr (Some (example_session ''b1'' ''B''))"
    by (simp add: getSession_def getRedisClient_def redis_get_def JSON_parse_def truthy_def
        session_key_def SESSION_PREFIX_def store_AB_def example_entry_def)
  have ua: "Session.userId (example_session ''a3'' ''A'') = ''A''"
    and ub: "Session.userId (example_session ''b1'' ''B'') \<noteq> ''A''"
    by (simp_all add: example_session_def)
  from revokeAllUserSessions_frame[OF ready ok, of "''A''"]
  obtain r' where all: "revokeAllUserSessions store_AB ''A'' = Inr r' \<and>
      (\<forall>sessionId s. getSession store_AB sessionId = Inr (Some s) \<and> Session.userId s = ''A''
         \<longrightarrow> getSession r' sessionId = Inr None) \<and>
      (\<forall>sessionId s. getSession store_AB sessionId = Inr (Some s) \<and> Session.userId s \<noteq> ''A''
         \<longrightarrow> getSession r' sessionId = Inr (Some s)) \<and>
      (\<forall>k. \<not> (matches_prefix SESSION_PREFIX k \<and> holds_session_of ''A'' store_AB k)
         \<longrightarrow> map_of (kv r') k = map_of (kv store_AB) k) \<and>
      getUserSessions r' ''A'' = Inr [] \<and>
      (\<forall>uid'. uid' \<noteq> ''A'' \<longrightarrow>
         (\<exists>before after. getUserSessions store_AB uid' = Inr before \<and>
            getUserSessions r' uid' = Inr after \<and> set after = set before))" ..
  note r = all[THEN conjunct1]
    and gone = all[THEN conjunct2, THEN conjunct1]
    and kept = all[THEN conjunct2, THEN conjunct2, THEN conjunct1]
    and none = all[THEN conjunct2, THEN conjunct2, THEN conjunct2, THEN conjunct2, THEN conjunct1]
  have g3: "getSession r' ''a3'' = Inr None"
    by (rule gone[rule_format, OF conjI[OF a3 ua]])
  have k1: "getSession r' ''b1'' = Inr (Some (example_session ''b1'' ''B''))"
    by (rule kept[rule_format, OF conjI[OF b1 ub]])
  from r none g3 k1
  have "\<exists>r'. revokeAllUserSessions store_AB ''A'' = Inr r' \<and>
      getUserSessions r' ''A'' = Inr [] \<and>
      getSession r' ''a3'' = Inr None \<and>
      getSession r' ''b1'' = Inr (Some (example_session ''b1'' ''B''))"
    by (intro exI[of _ r'] conjI)
  with ok a3 b1 show ?thesis by (intro conjI)
qed

end
